theory Spec2Isabelle
  imports Main "HOL-Library.Word"
begin

unbundle bit_operations_syntax

section \<open>The PN532 frame engine of \<open>scripts/pn532_controller.py\<close>\<close>

text \<open>
  A shallow embedding of the class \<open>PN532Controller\<close>: the frame codec
  (\<open>_build_frame\<close>, \<open>_read_frame\<close>), the command channel (\<open>send_command\<close>) and the
  command parsers \<open>read_passive_target\<close>, \<open>_identify_card_type\<close> and
  \<open>transceive_apdu\<close>.

  A Python \<open>bytes\<close> object is a list of 8-bit words; a Python \<open>int\<close> is an \<open>int\<close>.
  Indexing a \<open>bytes\<close> object yields an \<open>int\<close> in \<open>range(256)\<close>, which is \<open>uint\<close> of the
  byte. A method that returns \<open>Optional[...]\<close> returns an \<open>option\<close>; an exception that
  the method lets escape is the left summand of a sum type. Console output
  (\<open>print\<close>) is not modelled, so \<open>self.debug\<close> does not occur.
\<close>

subsection \<open>Bytes and Python built-ins\<close>

type_synonym byte = "8 word"

datatype py_error = ValueError | IndexError

text \<open>\<open>bytes([x, ...])\<close>: every element must lie in \<open>range(256)\<close>, else \<open>ValueError\<close>.\<close>

definition bytes_of :: "int list \<Rightarrow> py_error + byte list" where
  "bytes_of xs =
     (if list_all (\<lambda>x. 0 \<le> x \<and> x < 256) xs then Inr (map word_of_int xs)
      else Inl ValueError)"

text \<open>\<open>sum(bs)\<close> over a \<open>bytes\<close> object: the unbounded sum of its elements.\<close>

definition sum_bytes :: "byte list \<Rightarrow> int" where
  "sum_bytes bs = sum_list (map uint bs)"

text \<open>\<open>bs[i]\<close> for a non-negative literal index: \<open>IndexError\<close> out of range.\<close>

definition py_index :: "byte list \<Rightarrow> nat \<Rightarrow> py_error + int" where
  "py_index bs i = (if i < length bs then Inr (uint (bs ! i)) else Inl IndexError)"

text \<open>The slice \<open>bs[i:j]\<close> for non-negative bounds; it never raises.\<close>

definition py_slice :: "byte list \<Rightarrow> nat \<Rightarrow> nat \<Rightarrow> byte list" where
  "py_slice bs i j = drop i (take j bs)"

text \<open>
  The format specification \<open>02X\<close> applied to an \<open>int\<close>: upper-case hexadecimal
  digits, padded with zeros to two characters; a negative number carries its
  sign, which counts towards the width.
\<close>

definition hex_digit :: "nat \<Rightarrow> char" where
  "hex_digit d = ''0123456789ABCDEF'' ! d"

fun hex_of_nat :: "nat \<Rightarrow> string" where
  "hex_of_nat n =
     (if n < 16 then [hex_digit n]
      else hex_of_nat (n div 16) @ [hex_digit (n mod 16)])"

declare hex_of_nat.simps [simp del]

definition format_02X :: "int \<Rightarrow> string" where
  "format_02X i =
     (if i < 0 then CHR ''-'' # hex_of_nat (nat (- i))
      else (let s = hex_of_nat (nat i) in replicate (2 - length s) CHR ''0'' @ s))"

text \<open>\<open>bs.hex().upper()\<close>: two upper-case digits for each byte.\<close>

definition hex_upper :: "byte list \<Rightarrow> string" where
  "hex_upper bs = concat (map (\<lambda>b. format_02X (uint b)) bs)"

subsection \<open>Protocol constants\<close>

definition CMD_IN_LIST_PASSIVE_TARGET :: "byte list" where
  "CMD_IN_LIST_PASSIVE_TARGET = [0x4A]"

definition CMD_IN_DATA_EXCHANGE :: "byte list" where
  "CMD_IN_DATA_EXCHANGE = [0x40]"

definition PREAMBLE :: "byte list" where "PREAMBLE = [0x00]"
definition STARTCODE1 :: "byte list" where "STARTCODE1 = [0x00]"
definition STARTCODE2 :: "byte list" where "STARTCODE2 = [0xFF]"
definition POSTAMBLE :: "byte list" where "POSTAMBLE = [0x00]"

definition ACK :: "byte list" where
  "ACK = [0x00, 0x00, 0xFF, 0x00, 0xFF, 0x00]"

definition NACK :: "byte list" where
  "NACK = [0x00, 0x00, 0xFF, 0xFF, 0x00, 0x00]"

subsection \<open>The serial transport\<close>

text \<open>
  \<open>self.serial\<close> is an open \<open>serial.Serial\<close> with a read timeout. The inbound side
  is a list of bursts: the bytes of one burst arrive without a pause, and after
  a burst the line stays silent for longer than the timeout. \<open>read(n)\<close> returns
  \<open>n\<close> bytes when the current burst still holds that many; otherwise it returns
  what is left of the burst (fewer than \<open>n\<close> bytes) once the timeout expires, and
  the next call starts with the next burst. The calls made on the port are
  recorded in order.
\<close>

datatype serial_call = Write "byte list" | Read nat

record transport =
  rx :: "byte list list"
  calls :: "serial_call list"

fun take_burst :: "nat \<Rightarrow> byte list list \<Rightarrow> byte list \<times> byte list list" where
  "take_burst n [] = ([], [])"
| "take_burst n (c # cs) = (if n \<le> length c then (take n c, drop n c # cs) else (c, cs))"

definition serial_read :: "nat \<Rightarrow> transport \<Rightarrow> byte list \<times> transport" where
  "serial_read n t =
     (let (bs, rest) = take_burst n (rx t)
      in (bs, t\<lparr>rx := rest, calls := calls t @ [Read n]\<rparr>))"

definition serial_write :: "byte list \<Rightarrow> transport \<Rightarrow> transport" where
  "serial_write bs t = t\<lparr>calls := calls t @ [Write bs]\<rparr>"

subsection \<open>Frame codec\<close>

text \<open>
  \<open>_build_frame(data)\<close>. \<open>~length + 1\<close> is evaluated on unbounded integers and
  masked afterwards; \<open>bytes([length])\<close> raises \<open>ValueError\<close> when \<open>length\<close> is not in
  \<open>range(256)\<close>.
\<close>

definition build_frame :: "byte list \<Rightarrow> py_error + byte list" where
  "build_frame data =
     (let len = int (length data) + 1;
          lcs = (NOT len + 1) AND 0xFF;
          tfi = [0xD4];
          checksum_data = tfi @ data;
          dcs = (NOT (sum_bytes checksum_data) + 1) AND 0xFF
      in case bytes_of [len] of
           Inl e \<Rightarrow> Inl e
         | Inr len_b \<Rightarrow>
             (case bytes_of [lcs] of
                Inl e \<Rightarrow> Inl e
              | Inr lcs_b \<Rightarrow>
                  (case bytes_of [dcs] of
                     Inl e \<Rightarrow> Inl e
                   | Inr dcs_b \<Rightarrow>
                       Inr (PREAMBLE @ STARTCODE1 @ STARTCODE2 @ len_b @ lcs_b @ tfi @ data
                            @ dcs_b @ POSTAMBLE))))"

text \<open>
  \<open>_read_frame()\<close>. Every failure returns \<open>None\<close>; the transport is left where
  the last read put it. \<open>data_dcs[1:-1]\<close> is the slice from index 1 to the last
  index, \<open>data_dcs[-1]\<close> the last byte; both are in range because at least
  \<open>length + 1 \<ge> 1\<close> bytes were read.
\<close>

definition read_frame :: "transport \<Rightarrow> byte list option \<times> transport" where
  "read_frame t =
     (let (header, t1) = serial_read 3 t
      in if length header < 3 then (None, t1)
         else if header \<noteq> PREAMBLE @ STARTCODE1 @ STARTCODE2 then (None, t1)
         else
           (let (len_lcs, t2) = serial_read 2 t1
            in if length len_lcs < 2 then (None, t2)
               else
                 (let len = uint (len_lcs ! 0);
                      lcs = uint (len_lcs ! 1)
                  in if (len + lcs) AND 0xFF \<noteq> 0 then (None, t2)
                     else
                       (let (data_dcs, t3) = serial_read (nat (len + 1)) t2
                        in if int (length data_dcs) < len + 1 then (None, t3)
                           else
                             (let tfi = uint (data_dcs ! 0);
                                  data = py_slice data_dcs 1 (length data_dcs - 1);
                                  dcs = uint (last data_dcs);
                                  checksum = (tfi + sum_bytes data + dcs) AND 0xFF
                              in if checksum \<noteq> 0 then (None, t3)
                                 else
                                   (let (postamble, t4) = serial_read 1 t3
                                    in (Some data, t4)))))))"

subsection \<open>Command channel\<close>

text \<open>
  \<open>send_command(command, params)\<close>. An exception of \<open>_build_frame\<close> escapes before
  anything is written.
\<close>

definition send_command ::
  "transport \<Rightarrow> byte list \<Rightarrow> byte list \<Rightarrow> (py_error + byte list option) \<times> transport" where
  "send_command t command params =
     (case build_frame (command @ params) of
        Inl e \<Rightarrow> (Inl e, t)
      | Inr frame \<Rightarrow>
          (let t1 = serial_write frame t;
               (ack, t2) = serial_read 6 t1
           in if ack \<noteq> ACK then (Inr None, t2)
              else
                (let (response, t3) = read_frame t2
                 in (Inr response, t3))))"

subsection \<open>Command set\<close>

text \<open>\<open>_identify_card_type(sak)\<close>: the \<open>if\<close>/\<open>elif\<close> chain in the source's order.\<close>

definition identify_card_type :: "int \<Rightarrow> string" where
  "identify_card_type sak =
     (if sak AND 0x20 \<noteq> 0 then ''ISO14443-4 (EMV/Smart Card)''
      else if sak = 0x08 then ''MIFARE Classic 1K''
      else if sak = 0x18 then ''MIFARE Classic 4K''
      else if sak = 0x00 then ''MIFARE Ultralight''
      else if sak = 0x10 then ''MIFARE Plus''
      else ''Unknown (SAK: 0x'' @ format_02X sak @ '')'')"

text \<open>The dictionary \<open>card_info\<close> has a fixed set of keys, so it is a record.\<close>

record card_info =
  target_number :: int
  sens_res :: string
  sel_res :: string
  uid_length :: int
  uid :: string
  card_type :: string

text \<open>
  The part of \<open>read_passive_target\<close> after the call of \<open>send_command\<close>.
  \<open>not response\<close> holds for \<open>None\<close> and for the empty \<open>bytes\<close> object. After the
  guard \<open>len(response) < 2\<close> the indices 0 and 1 are in range; \<open>response[4]\<close> and
  \<open>response[5]\<close> are not guarded and raise \<open>IndexError\<close> on a shorter response.
  The slices never raise.
\<close>

definition passive_target_info :: "byte list option \<Rightarrow> py_error + card_info option" where
  "passive_target_info response =
     (case response of
        None \<Rightarrow> Inr None
      | Some r \<Rightarrow>
          if r = [] \<or> length r < 2 then Inr None
          else
            (let num_targets = uint (r ! 0)
             in if num_targets = 0 then Inr None
                else
                  (let target_no = uint (r ! 1);
                       sens = py_slice r 2 4
                   in case py_index r 4 of
                        Inl e \<Rightarrow> Inl e
                      | Inr sel \<Rightarrow>
                          (case py_index r 5 of
                             Inl e \<Rightarrow> Inl e
                           | Inr uid_len \<Rightarrow>
                               (let uid_bytes = py_slice r 6 (6 + nat uid_len)
                                in Inr (Some \<lparr>target_number = target_no,
                                              sens_res = hex_upper sens,
                                              sel_res = format_02X sel,
                                              uid_length = uid_len,
                                              uid = hex_upper uid_bytes,
                                              card_type = identify_card_type sel\<rparr>))))))"

text \<open>
  \<open>read_passive_target(card_type, max_targets)\<close>: \<open>bytes([max_targets, card_type])\<close>
  raises \<open>ValueError\<close> before anything is sent when an argument is not in
  \<open>range(256)\<close>.
\<close>

definition read_passive_target ::
  "transport \<Rightarrow> int \<Rightarrow> int \<Rightarrow> (py_error + card_info option) \<times> transport" where
  "read_passive_target t card_type_arg max_targets =
     (case bytes_of [max_targets, card_type_arg] of
        Inl e \<Rightarrow> (Inl e, t)
      | Inr params \<Rightarrow>
          (case send_command t CMD_IN_LIST_PASSIVE_TARGET params of
             (Inl e, t') \<Rightarrow> (Inl e, t')
           | (Inr response, t') \<Rightarrow> (passive_target_info response, t')))"

text \<open>The part of \<open>transceive_apdu\<close> after the call of \<open>send_command\<close>.\<close>

definition apdu_result :: "byte list option \<Rightarrow> byte list option" where
  "apdu_result response =
     (case response of
        None \<Rightarrow> None
      | Some r \<Rightarrow>
          if r = [] \<or> length r < 2 then None
          else
            (let status = uint (r ! 0);
                 data = drop 1 r
             in if status \<noteq> 0x00 then None else Some data))"

text \<open>\<open>transceive_apdu(target, apdu)\<close>: \<open>params = bytes([target]) + apdu\<close>.\<close>

definition transceive_apdu ::
  "transport \<Rightarrow> int \<Rightarrow> byte list \<Rightarrow> (py_error + byte list option) \<times> transport" where
  "transceive_apdu t target apdu =
     (case bytes_of [target] of
        Inl e \<Rightarrow> (Inl e, t)
      | Inr target_b \<Rightarrow>
          (case send_command t CMD_IN_DATA_EXCHANGE (target_b @ apdu) of
             (Inl e, t') \<Rightarrow> (Inl e, t')
           | (Inr response, t') \<Rightarrow> (Inr (apdu_result response), t')))"

subsection \<open>Observations on the transport\<close>


text \<open>The byte strings written to the port, in order.\<close>

fun writes :: "serial_call list \<Rightarrow> byte list list" where
  "writes [] = []"
| "writes (Write bs # cs) = bs # writes cs"
| "writes (Read n # cs) = writes cs"

text \<open>
  The classification of a SAK value as the specification words it, to be
  compared with \<open>_identify_card_type\<close>: bit \<open>0x20\<close> (bit 5) set gives ISO14443-4;
  otherwise the exact values \<open>0x08\<close>, \<open>0x18\<close>, \<open>0x00\<close>, \<open>0x10\<close> give Classic 1K,
  Classic 4K, Ultralight and Plus; every other value is unknown and keeps the
  raw value. \<open>kind_label\<close> is the text the source returns for each class.
\<close>

datatype card_kind = ISO14443_4 | Classic_1K | Classic_4K | Ultralight | Plus | Unknown int

definition spec_classify_sak :: "int \<Rightarrow> card_kind" where
  "spec_classify_sak sak =
     (if bit sak 5 then ISO14443_4
      else if sak = 0x08 then Classic_1K
      else if sak = 0x18 then Classic_4K
      else if sak = 0x00 then Ultralight
      else if sak = 0x10 then Plus
      else Unknown sak)"

fun kind_label :: "card_kind \<Rightarrow> string" where
  "kind_label ISO14443_4 = ''ISO14443-4 (EMV/Smart Card)''"
| "kind_label Classic_1K = ''MIFARE Classic 1K''"
| "kind_label Classic_4K = ''MIFARE Classic 4K''"
| "kind_label Ultralight = ''MIFARE Ultralight''"
| "kind_label Plus = ''MIFARE Plus''"
| "kind_label (Unknown v) = ''Unknown (SAK: 0x'' @ format_02X v @ '')''"

section \<open>Properties\<close>

subsection \<open>Arithmetic of the checksums\<close>

lemma and_255_mod: "(x::int) AND 0xFF = x mod 256"
proof -
  have "x AND mask 8 = take_bit 8 x"
    by (simp only: take_bit_eq_mask)
  then show ?thesis
    by (simp add: take_bit_eq_mod mask_eq_exp_minus_1)
qed

lemma not_plus_one: "NOT (x::int) + 1 = - x"
  by (simp add: not_int_def)

lemma uint_byte_of_int: "uint (word_of_int k :: byte) = k mod 256"
  by (simp add: uint_word_of_int_eq take_bit_eq_mod)

lemma bytes_of_single:
  "bytes_of [x] = (if 0 \<le> x \<and> x < 256 then Inr [word_of_int x] else Inl ValueError)"
  by (simp add: bytes_of_def)

subsection \<open>The encoder\<close>

lemma build_frame_ok:
  assumes "length data \<le> 254"
  shows "build_frame data =
           Inr ([0x00, 0x00, 0xFF, word_of_int (int (length data) + 1),
                 word_of_int ((- (int (length data) + 1)) mod 256), 0xD4] @ data
                @ [word_of_int ((- (0xD4 + sum_bytes data)) mod 256), 0x00])"
  using assms
  by (simp add: build_frame_def Let_def bytes_of_single and_255_mod not_plus_one sum_bytes_def
      PREAMBLE_def STARTCODE1_def STARTCODE2_def POSTAMBLE_def)

lemma build_frame_too_long:
  assumes "254 < length data"
  shows "build_frame data = Inl ValueError"
  using assms by (simp add: build_frame_def Let_def bytes_of_single)

lemma build_frame_fields:
  assumes "length data \<le> 254"
  shows "\<exists>len lcs dcs.
           build_frame data = Inr ([0x00, 0x00, 0xFF, len, lcs, 0xD4] @ data @ [dcs, 0x00])
         \<and> uint len = int (length data) + 1
         \<and> uint lcs = (- uint len) mod 256
         \<and> uint dcs = (- ((0xD4 + sum_bytes data) mod 256)) mod 256
         \<and> (uint len + uint lcs) mod 256 = 0
         \<and> (0xD4 + sum_bytes data + uint dcs) mod 256 = 0"
proof -
  let ?len = "word_of_int (int (length data) + 1) :: byte"
  let ?lcs = "word_of_int ((- (int (length data) + 1)) mod 256) :: byte"
  let ?dcs = "word_of_int ((- (0xD4 + sum_bytes data)) mod 256) :: byte"
  have frame:
    "build_frame data = Inr ([0x00, 0x00, 0xFF, ?len, ?lcs, 0xD4] @ data @ [?dcs, 0x00])"
    by (rule build_frame_ok [OF assms])
  have len: "uint ?len = int (length data) + 1"
    using assms by (simp only: uint_byte_of_int) simp
  have lcs: "uint ?lcs = (- uint ?len) mod 256"
    by (simp only: len uint_byte_of_int mod_mod_trivial mod_minus_eq)
  have dcs: "uint ?dcs = (- ((0xD4 + sum_bytes data) mod 256)) mod 256"
    by (simp only: uint_byte_of_int mod_mod_trivial mod_minus_eq)
  have lsum: "(uint ?len + uint ?lcs) mod 256 = 0"
    unfolding lcs by (simp add: mod_add_right_eq)
  have dsum: "(0xD4 + sum_bytes data + uint ?dcs) mod 256 = 0"
    unfolding dcs by (simp add: mod_add_right_eq mod_minus_eq)
  from frame len lcs dcs lsum dsum show ?thesis
    by (intro exI conjI) assumption+
qed

text \<open>
  Claim C2. Every frame that \<open>_build_frame\<close> produces has the layout preamble,
  start code, length, length checksum, direction tag \<open>0xD4\<close>, data, data
  checksum, postamble. The length byte counts the direction tag and the data,
  \<open>(length + length_checksum) mod 256 = 0\<close> and
  \<open>(direction_tag + sum(data) + data_checksum) mod 256 = 0\<close>; the checksums are the
  negated length and the negated byte sum modulo 256.
\<close>

theorem build_frame_checksum_invariant:
  assumes "build_frame data = Inr frame"
  shows "\<exists>len lcs dcs.
           frame = [0x00, 0x00, 0xFF, len, lcs, 0xD4] @ data @ [dcs, 0x00]
         \<and> uint len = int (length data) + 1
         \<and> uint lcs = (- uint len) mod 256
         \<and> uint dcs = (- ((0xD4 + sum_bytes data) mod 256)) mod 256
         \<and> (uint len + uint lcs) mod 256 = 0
         \<and> (0xD4 + sum_bytes data + uint dcs) mod 256 = 0"
proof -
  have short: "length data \<le> 254"
  proof (rule ccontr)
    assume "\<not> length data \<le> 254"
    then have "build_frame data = Inl ValueError"
      by (simp add: build_frame_too_long)
    with assms show False
      by simp
  qed
  from build_frame_fields [OF short] obtain len lcs dcs where
    all: "build_frame data = Inr ([0x00, 0x00, 0xFF, len, lcs, 0xD4] @ data @ [dcs, 0x00])
        \<and> uint len = int (length data) + 1
        \<and> uint lcs = (- uint len) mod 256
        \<and> uint dcs = (- ((0xD4 + sum_bytes data) mod 256)) mod 256
        \<and> (uint len + uint lcs) mod 256 = 0
        \<and> (0xD4 + sum_bytes data + uint dcs) mod 256 = 0"
    by (elim exE)
  from all assms have "frame = [0x00, 0x00, 0xFF, len, lcs, 0xD4] @ data @ [dcs, 0x00]"
    by simp
  with all show ?thesis
    by (intro exI conjI) (elim conjE, assumption)+
qed

text \<open>The frame of the firmware query (opcode \<open>0x02\<close>, no parameters).\<close>

theorem build_frame_checksum_invariant_witness:
  "build_frame [0x02] = Inr [0x00, 0x00, 0xFF, 0x02, 0xFE, 0xD4, 0x02, 0x2A, 0x00]
   \<and> (\<exists>len lcs dcs :: byte.
         [0x00, 0x00, 0xFF, 0x02, 0xFE, 0xD4, 0x02, 0x2A, 0x00]
           = [0x00, 0x00, 0xFF, len, lcs, 0xD4] @ [0x02] @ [dcs, 0x00]
       \<and> uint len = int (length [0x02 :: byte]) + 1
       \<and> uint lcs = (- uint len) mod 256
       \<and> uint dcs = (- ((0xD4 + sum_bytes [0x02]) mod 256)) mod 256
       \<and> (uint len + uint lcs) mod 256 = 0
       \<and> (0xD4 + sum_bytes [0x02] + uint dcs) mod 256 = 0)"
proof -
  have b: "build_frame [0x02] = Inr [0x00, 0x00, 0xFF, 0x02, 0xFE, 0xD4, 0x02, 0x2A, 0x00]"
    by (simp add: build_frame_def bytes_of_def sum_bytes_def PREAMBLE_def STARTCODE1_def
        STARTCODE2_def POSTAMBLE_def)
  from b build_frame_checksum_invariant [OF b] show ?thesis
    by (rule conjI)
qed

text \<open>
  Claim C8. With a one-byte opcode and more than 253 parameter bytes the length
  field would exceed 255: \<open>bytes([length])\<close> raises \<open>ValueError\<close>, so \<open>_build_frame\<close>
  emits no frame, and \<open>send_command\<close> passes the exception on before it writes
  anything to the port.
\<close>

theorem build_frame_rejects_long_params:
  assumes "253 < length params"
  shows "build_frame ([opcode] @ params) = Inl ValueError
       \<and> send_command t [opcode] params = (Inl ValueError, t)"
proof -
  have "254 < length ([opcode] @ params)"
    using assms by simp
  then have "build_frame ([opcode] @ params) = Inl ValueError"
    by (rule build_frame_too_long)
  then show ?thesis
    by (simp add: send_command_def)
qed

theorem build_frame_rejects_long_params_witness:
  "253 < length (replicate 254 (0x00 :: byte))
   \<and> build_frame ([0x40] @ replicate 254 0x00) = Inl ValueError
   \<and> send_command \<lparr>rx = [], calls = []\<rparr> [0x40] (replicate 254 0x00)
       = (Inl ValueError, \<lparr>rx = [], calls = []\<rparr>)"
proof -
  have h: "253 < length (replicate 254 (0x00 :: byte))"
    by simp
  from h build_frame_rejects_long_params [OF h, of "0x40" "\<lparr>rx = [], calls = []\<rparr>"]
  show ?thesis
    by (rule conjI)
qed

subsection \<open>The decoder\<close>




text \<open>
  A frame whose two checksums verify is accepted whatever its direction tag
  and postamble are, and the decoder consumes exactly the frame.
\<close>

lemma read_frame_accepts:
  assumes rx: "rx t = ([0x00, 0x00, 0xFF, len, lcs, tfi] @ data @ [dcs, p] @ rest) # later"
    and len: "uint len = int (length data) + 1"
    and lcs: "(uint len + uint lcs) mod 256 = 0"
    and dcs: "(uint tfi + sum_bytes data + uint dcs) mod 256 = 0"
  shows "read_frame t =
           (Some data,
            t\<lparr>rx := rest # later,
              calls := calls t @ [Read 3, Read 2, Read (length data + 2), Read 1]\<rparr>)"
proof -
  have n3: "nat (2 + int (length data)) = Suc (Suc (length data))"
    by simp
  have lcs': "(int (length data) + 1 + uint lcs) mod 256 = 0"
    using len lcs by simp
  show ?thesis
    using rx len lcs' dcs
    by (simp add: read_frame_def serial_read_def Let_def py_slice_def and_255_mod n3
        PREAMBLE_def STARTCODE1_def STARTCODE2_def)
qed

text \<open>
  Claim C1, as amended. For every opcode byte and every parameter sequence of
  at most 253 bytes, \<open>_build_frame\<close> produces a frame, and \<open>_read_frame\<close> on a
  stream that starts with this frame succeeds and returns opcode \<open>\<parallel>\<close> params. The
  direction tag \<open>0xD4\<close> is read and enters the data checksum, but it is not part
  of the returned data. The decoder consumes the frame and nothing after it.
\<close>

theorem frame_roundtrip_strips_tag:
  assumes "length params \<le> 253"
  shows "\<exists>frame.
           build_frame ([opcode] @ params) = Inr frame
         \<and> read_frame \<lparr>rx = (frame @ rest) # later, calls = cs\<rparr>
             = (Some ([opcode] @ params),
                \<lparr>rx = rest # later,
                  calls = cs @ [Read 3, Read 2, Read (length params + 3), Read 1]\<rparr>)"
proof -
  let ?data = "[opcode] @ params"
  have short: "length ?data \<le> 254"
    using assms by simp
  from build_frame_fields [OF short] obtain len lcs dcs where
    all: "build_frame ?data = Inr ([0x00, 0x00, 0xFF, len, lcs, 0xD4] @ ?data @ [dcs, 0x00])
        \<and> uint len = int (length ?data) + 1
        \<and> uint lcs = (- uint len) mod 256
        \<and> uint dcs = (- ((0xD4 + sum_bytes ?data) mod 256)) mod 256
        \<and> (uint len + uint lcs) mod 256 = 0
        \<and> (0xD4 + sum_bytes ?data + uint dcs) mod 256 = 0"
    by (elim exE)
  let ?frame = "[0x00, 0x00, 0xFF, len, lcs, 0xD4] @ ?data @ [dcs, 0x00]"
  from all have b: "build_frame ?data = Inr ?frame"
    by (elim conjE)
  from all have len: "uint len = int (length ?data) + 1"
    by (elim conjE)
  from all have lsum: "(uint len + uint lcs) mod 256 = 0"
    by (elim conjE)
  from all have dsum: "(0xD4 + sum_bytes ?data + uint dcs) mod 256 = 0"
    by (elim conjE)
  let ?t = "\<lparr>rx = (?frame @ rest) # later, calls = cs\<rparr>"
  have rx: "rx ?t = ([0x00, 0x00, 0xFF, len, lcs, 0xD4] @ ?data @ [dcs, 0x00] @ rest) # later"
    by simp
  have dsum': "(uint (0xD4 :: byte) + sum_bytes ?data + uint dcs) mod 256 = 0"
    using dsum by simp
  have "read_frame ?t =
          (Some ?data,
           ?t\<lparr>rx := rest # later,
              calls := calls ?t @ [Read 3, Read 2, Read (length ?data + 2), Read 1]\<rparr>)"
    by (rule read_frame_accepts [OF rx len lsum dsum'])
  then have "read_frame ?t =
          (Some ?data,
           \<lparr>rx = rest # later,
            calls = cs @ [Read 3, Read 2, Read (length params + 3), Read 1]\<rparr>)"
    by simp
  with b have "build_frame ?data = Inr ?frame
      \<and> read_frame ?t =
          (Some ?data,
           \<lparr>rx = rest # later,
            calls = cs @ [Read 3, Read 2, Read (length params + 3), Read 1]\<rparr>)"
    by (rule conjI)
  then show ?thesis
    by (rule exI)
qed

text \<open>The detection command (opcode \<open>0x4A\<close>, parameters \<open>01 00\<close>).\<close>

theorem frame_roundtrip_strips_tag_witness:
  "length [0x01, 0x00 :: byte] \<le> 253
   \<and> (\<exists>frame.
         build_frame ([0x4A] @ [0x01, 0x00]) = Inr frame
       \<and> read_frame \<lparr>rx = (frame @ []) # [], calls = []\<rparr>
           = (Some ([0x4A] @ [0x01, 0x00]),
              \<lparr>rx = [] # [],
                calls = [] @ [Read 3, Read 2, Read (length [0x01, 0x00 :: byte] + 3), Read 1]\<rparr>))"
proof -
  have h: "length [0x01, 0x00 :: byte] \<le> 253"
    by simp
  from h frame_roundtrip_strips_tag [OF h, of "0x4A" "[]" "[]" "[]"] show ?thesis
    by (rule conjI)
qed

text \<open>
  Claim C1 as stated fails: for the opcode \<open>0x02\<close> without parameters the decoder
  returns the single byte \<open>02\<close>, not \<open>D4 02\<close>.
\<close>

theorem frame_roundtrip_tag_counterexample:
  "build_frame ([0x02] @ []) = Inr [0x00, 0x00, 0xFF, 0x02, 0xFE, 0xD4, 0x02, 0x2A, 0x00]
   \<and> fst (read_frame \<lparr>rx = [[0x00, 0x00, 0xFF, 0x02, 0xFE, 0xD4, 0x02, 0x2A, 0x00]],
                       calls = []\<rparr>) = Some [0x02]
   \<and> fst (read_frame \<lparr>rx = [[0x00, 0x00, 0xFF, 0x02, 0xFE, 0xD4, 0x02, 0x2A, 0x00]],
                       calls = []\<rparr>) \<noteq> Some ([0xD4] @ [0x02] @ [])"
  by (simp add: build_frame_def bytes_of_def sum_bytes_def read_frame_def serial_read_def
      py_slice_def PREAMBLE_def STARTCODE1_def STARTCODE2_def POSTAMBLE_def)

lemma double_byte_zero:
  "(uint (b::byte) + uint b) mod 256 = 0 \<longleftrightarrow> b = 0x00 \<or> b = 0x80"
proof
  assume a: "(uint b + uint b) mod 256 = 0"
  have r: "0 \<le> uint b" "uint b < 256"
    using uint_bounded [of b] by simp_all
  from a r have "uint b = 0 \<or> uint b = 128"
    by presburger
  then have "uint b = uint (0x00 :: byte) \<or> uint b = uint (0x80 :: byte)"
    by simp
  then show "b = 0x00 \<or> b = 0x80"
    by (simp only: word_uint_eq_iff)
next
  assume "b = 0x00 \<or> b = 0x80"
  then show "(uint b + uint b) mod 256 = 0"
    by auto
qed

text \<open>
  Claim C10. When the inbound frame declares length 0 with length checksum
  \<open>0x00\<close>, \<open>_read_frame\<close> reads one body byte \<open>b\<close>, which is the direction tag
  (\<open>data_dcs[0]\<close>) and the data checksum (\<open>data_dcs[-1]\<close>) at once. The frame
  is accepted exactly when \<open>b + b\<close> is 0 modulo 256, that is for \<open>b = 0x00\<close> and
  \<open>b = 0x80\<close>; the payload returned is then empty, and the postamble is read.
  Otherwise the result is \<open>None\<close> and nothing more is read.
\<close>

theorem read_frame_zero_length:
  assumes "rx t = ([0x00, 0x00, 0xFF, 0x00, 0x00, b] @ rest) # later"
  shows "fst (read_frame t) = (if (uint b + uint b) mod 256 = 0 then Some [] else None)
       \<and> ((uint b + uint b) mod 256 = 0 \<longleftrightarrow> b = 0x00 \<or> b = 0x80)
       \<and> calls (snd (read_frame t))
           = calls t @ [Read 3, Read 2, Read 1]
             @ (if (uint b + uint b) mod 256 = 0 then [Read 1] else [])"
proof -
  have "fst (read_frame t) = (if (uint b + uint b) mod 256 = 0 then Some [] else None)"
    using assms
    by (simp add: read_frame_def serial_read_def Let_def py_slice_def and_255_mod sum_bytes_def
        PREAMBLE_def STARTCODE1_def STARTCODE2_def split: prod.split)
  moreover have "calls (snd (read_frame t))
           = calls t @ [Read 3, Read 2, Read 1]
             @ (if (uint b + uint b) mod 256 = 0 then [Read 1] else [])"
    using assms
    by (simp add: read_frame_def serial_read_def Let_def py_slice_def and_255_mod sum_bytes_def
        PREAMBLE_def STARTCODE1_def STARTCODE2_def split: prod.split)
  ultimately show ?thesis
    using double_byte_zero [of b] by (intro conjI)
qed

theorem read_frame_zero_length_witness:
  "rx \<lparr>rx = [[0x00, 0x00, 0xFF, 0x00, 0x00, 0x80, 0x00]], calls = []\<rparr>
     = ([0x00, 0x00, 0xFF, 0x00, 0x00, 0x80] @ [0x00]) # []
   \<and> fst (read_frame \<lparr>rx = [[0x00, 0x00, 0xFF, 0x00, 0x00, 0x80, 0x00]], calls = []\<rparr>)
       = Some []
   \<and> calls (snd (read_frame \<lparr>rx = [[0x00, 0x00, 0xFF, 0x00, 0x00, 0x80, 0x00]],
                              calls = []\<rparr>))
       = [Read 3, Read 2, Read 1, Read 1]"
proof -
  let ?t = "\<lparr>rx = [[0x00, 0x00, 0xFF, 0x00, 0x00, 0x80, 0x00 :: byte]], calls = []\<rparr>"
  have h: "rx ?t = ([0x00, 0x00, 0xFF, 0x00, 0x00, 0x80] @ [0x00]) # []"
    by simp
  from read_frame_zero_length [OF h] h show ?thesis
    by simp
qed




subsection \<open>The command channel\<close>

text \<open>
  Claim C4. \<open>send_command\<close> writes the request frame and then issues one read of
  6 bytes. When the bytes read differ from the ACK literal \<open>00 00 FF 00 FF 00\<close>
  (a short read and the NACK token are such cases), it returns \<open>None\<close>, its
  failure result. The calls on the port are then the one write and the one read:
  no response frame is read and the frame is not sent again.
\<close>

theorem send_command_no_ack:
  assumes "build_frame (command @ params) = Inr frame"
    and "take_burst 6 (rx t) = (ack, rest)"
    and "ack \<noteq> ACK \<or> ack = NACK \<or> length ack < 6"
  shows "send_command t command params
           = (Inr None, t\<lparr>rx := rest, calls := calls t @ [Write frame, Read 6]\<rparr>)"
proof -
  have "ack \<noteq> ACK"
    using assms(3) by (auto simp add: ACK_def NACK_def)
  then show ?thesis
    using assms(1,2)
    by (simp add: send_command_def serial_read_def serial_write_def)
qed

text \<open>The firmware query answered by the NACK token.\<close>

theorem send_command_no_ack_witness:
  "build_frame ([0x02] @ []) = Inr [0x00, 0x00, 0xFF, 0x02, 0xFE, 0xD4, 0x02, 0x2A, 0x00]
   \<and> take_burst 6 (rx \<lparr>rx = [[0x00, 0x00, 0xFF, 0xFF, 0x00, 0x00]], calls = []\<rparr>)
       = ([0x00, 0x00, 0xFF, 0xFF, 0x00, 0x00], [[]])
   \<and> [0x00, 0x00, 0xFF, 0xFF, 0x00, 0x00] = NACK
   \<and> send_command \<lparr>rx = [[0x00, 0x00, 0xFF, 0xFF, 0x00, 0x00]], calls = []\<rparr> [0x02] []
       = (Inr None,
          \<lparr>rx = [[]],
            calls = [Write [0x00, 0x00, 0xFF, 0x02, 0xFE, 0xD4, 0x02, 0x2A, 0x00], Read 6]\<rparr>)"
proof -
  let ?t = "\<lparr>rx = [[0x00, 0x00, 0xFF, 0xFF, 0x00, 0x00 :: byte]], calls = []\<rparr>"
  have b: "build_frame ([0x02] @ [])
             = Inr [0x00, 0x00, 0xFF, 0x02, 0xFE, 0xD4, 0x02, 0x2A, 0x00]"
    by (simp add: build_frame_def bytes_of_def sum_bytes_def PREAMBLE_def STARTCODE1_def
        STARTCODE2_def POSTAMBLE_def)
  have r: "take_burst 6 (rx ?t) = ([0x00, 0x00, 0xFF, 0xFF, 0x00, 0x00], [[]])"
    by simp
  have n: "[0x00, 0x00, 0xFF, 0xFF, 0x00, 0x00] = NACK"
    by (simp add: NACK_def)
  have d: "[0x00, 0x00, 0xFF, 0xFF, 0x00, 0x00] \<noteq> ACK
           \<or> [0x00, 0x00, 0xFF, 0xFF, 0x00, 0x00] = NACK
           \<or> length [0x00, 0x00, 0xFF, 0xFF, 0x00, 0x00 :: byte] < 6"
    using n by simp
  from send_command_no_ack [OF b r d] b r n show ?thesis
    by simp
qed

subsection \<open>Writes on the port\<close>

lemma writes_append: "writes (xs @ ys) = writes xs @ writes ys"
  by (induction xs rule: writes.induct) simp_all

lemma serial_read_writes: "writes (calls (snd (serial_read n t))) = writes (calls t)"
  by (simp add: serial_read_def writes_append split: prod.split)

lemma serial_read_writes_eq:
  assumes "serial_read n t = (bs, t')"
  shows "writes (calls t') = writes (calls t)"
  using serial_read_writes [of n t] assms by simp

lemma read_frame_writes: "writes (calls (snd (read_frame t))) = writes (calls t)"
  unfolding read_frame_def Let_def
  by (auto split: prod.split dest!: serial_read_writes_eq)

text \<open>A call of \<open>send_command\<close> that returns writes its frame once and nothing else.\<close>

lemma send_command_writes:
  assumes "send_command t command params = (Inr response, t')"
  shows "\<exists>frame. build_frame (command @ params) = Inr frame
           \<and> writes (calls t') = writes (calls t) @ [frame]"
proof (cases "build_frame (command @ params)")
  case (Inl e)
  with assms show ?thesis
    by (simp add: send_command_def)
next
  case (Inr frame)
  let ?t1 = "serial_write frame t"
  have w1: "writes (calls ?t1) = writes (calls t) @ [frame]"
    by (simp add: serial_write_def writes_append)
  obtain ack t2 where r: "serial_read 6 ?t1 = (ack, t2)"
    by (cases "serial_read 6 ?t1")
  have w2: "writes (calls t2) = writes (calls t) @ [frame]"
    using serial_read_writes_eq [OF r] w1 by simp
  have "writes (calls t') = writes (calls t2)"
  proof (cases "ack = ACK")
    case True
    with assms Inr r have "t' = snd (read_frame t2)"
      by (auto simp add: send_command_def Let_def split: prod.splits)
    then show ?thesis
      by (simp add: read_frame_writes)
  next
    case False
    with assms Inr r show ?thesis
      by (simp add: send_command_def Let_def)
  qed
  with w2 Inr show ?thesis
    by simp
qed

subsection \<open>Passive target detection\<close>

text \<open>
  Claim C5, as amended. When the response to the detection command has the
  count byte \<open>0x00\<close>, \<open>read_passive_target\<close> returns \<open>None\<close> and raises nothing.
  \<open>None\<close> is also what it returns when \<open>send_command\<close> fails, so the value does
  not tell "no target" from a failed command.
\<close>

theorem read_passive_target_no_target:
  assumes "bytes_of [max_targets, card_type_arg] = Inr params"
    and "send_command t CMD_IN_LIST_PASSIVE_TARGET params = (Inr (Some r), t')"
    and "r \<noteq> []" and "r ! 0 = 0x00"
    and "send_command u CMD_IN_LIST_PASSIVE_TARGET params = (Inr None, u')"
  shows "read_passive_target t card_type_arg max_targets = (Inr None, t')
       \<and> read_passive_target u card_type_arg max_targets = (Inr None, u')"
  using assms
  by (simp add: read_passive_target_def passive_target_info_def)

text \<open>
  A port that acknowledges and answers with the payload \<open>00 00\<close>, and a port
  that stays silent.
\<close>

theorem read_passive_target_no_target_witness:
  "bytes_of [1, 0] = Inr [0x01, 0x00]
   \<and> send_command
         \<lparr>rx = [[0x00, 0x00, 0xFF, 0x00, 0xFF, 0x00,
                 0x00, 0x00, 0xFF, 0x03, 0xFD, 0xD5, 0x00, 0x00, 0x2B, 0x00]], calls = []\<rparr>
         CMD_IN_LIST_PASSIVE_TARGET [0x01, 0x00]
       = (Inr (Some [0x00, 0x00]),
          \<lparr>rx = [[]],
            calls = [Write [0x00, 0x00, 0xFF, 0x04, 0xFC, 0xD4, 0x4A, 0x01, 0x00, 0xE1, 0x00],
                     Read 6, Read 3, Read 2, Read 4, Read 1]\<rparr>)
   \<and> [0x00, 0x00 :: byte] \<noteq> [] \<and> [0x00, 0x00 :: byte] ! 0 = 0x00
   \<and> send_command \<lparr>rx = [], calls = []\<rparr> CMD_IN_LIST_PASSIVE_TARGET [0x01, 0x00]
       = (Inr None,
          \<lparr>rx = [],
            calls = [Write [0x00, 0x00, 0xFF, 0x04, 0xFC, 0xD4, 0x4A, 0x01, 0x00, 0xE1, 0x00],
                     Read 6]\<rparr>)
   \<and> read_passive_target
         \<lparr>rx = [[0x00, 0x00, 0xFF, 0x00, 0xFF, 0x00,
                 0x00, 0x00, 0xFF, 0x03, 0xFD, 0xD5, 0x00, 0x00, 0x2B, 0x00]], calls = []\<rparr> 0 1
       = (Inr None,
          \<lparr>rx = [[]],
            calls = [Write [0x00, 0x00, 0xFF, 0x04, 0xFC, 0xD4, 0x4A, 0x01, 0x00, 0xE1, 0x00],
                     Read 6, Read 3, Read 2, Read 4, Read 1]\<rparr>)
   \<and> read_passive_target \<lparr>rx = [], calls = []\<rparr> 0 1
       = (Inr None,
          \<lparr>rx = [],
            calls = [Write [0x00, 0x00, 0xFF, 0x04, 0xFC, 0xD4, 0x4A, 0x01, 0x00, 0xE1, 0x00],
                     Read 6]\<rparr>)"
proof -
  let ?t = "\<lparr>rx = [[0x00, 0x00, 0xFF, 0x00, 0xFF, 0x00,
                 0x00, 0x00, 0xFF, 0x03, 0xFD, 0xD5, 0x00, 0x00, 0x2B, 0x00 :: byte]],
             calls = []\<rparr>"
  let ?u = "\<lparr>rx = [] :: byte list list, calls = []\<rparr>"
  let ?w = "Write [0x00, 0x00, 0xFF, 0x04, 0xFC, 0xD4, 0x4A, 0x01, 0x00, 0xE1, 0x00]"
  have p: "bytes_of [1, 0] = Inr [0x01, 0x00]"
    by (simp add: bytes_of_def)
  have s: "send_command ?t CMD_IN_LIST_PASSIVE_TARGET [0x01, 0x00]
             = (Inr (Some [0x00, 0x00]),
                \<lparr>rx = [[]], calls = [?w, Read 6, Read 3, Read 2, Read 4, Read 1]\<rparr>)"
    by (simp add: send_command_def build_frame_def read_frame_def serial_read_def
        serial_write_def bytes_of_def sum_bytes_def py_slice_def ACK_def PREAMBLE_def
        STARTCODE1_def STARTCODE2_def POSTAMBLE_def CMD_IN_LIST_PASSIVE_TARGET_def)
  have n: "[0x00, 0x00 :: byte] \<noteq> []" and z: "[0x00, 0x00 :: byte] ! 0 = 0x00"
    by simp_all
  have f: "send_command ?u CMD_IN_LIST_PASSIVE_TARGET [0x01, 0x00]
             = (Inr None, \<lparr>rx = [], calls = [?w, Read 6]\<rparr>)"
    by (simp add: send_command_def build_frame_def serial_read_def serial_write_def
        bytes_of_def sum_bytes_def ACK_def PREAMBLE_def STARTCODE1_def STARTCODE2_def
        POSTAMBLE_def CMD_IN_LIST_PASSIVE_TARGET_def)
  note c = read_passive_target_no_target [OF p s n z f]
  from p s n z f c [THEN conjunct1] c [THEN conjunct2] show ?thesis
    by (intro conjI)
qed

text \<open>
  Claim C5 as stated fails: the result for a response with count byte \<open>0x00\<close> is
  the result for a port that never acknowledges.
\<close>

theorem no_target_same_as_failure_counterexample:
  "fst (read_passive_target
          \<lparr>rx = [[0x00, 0x00, 0xFF, 0x00, 0xFF, 0x00,
                  0x00, 0x00, 0xFF, 0x03, 0xFD, 0xD5, 0x00, 0x00, 0x2B, 0x00]], calls = []\<rparr>
          0 1) = Inr None
   \<and> fst (read_passive_target \<lparr>rx = [], calls = []\<rparr> 0 1) = Inr None"
  by (simp add: read_passive_target_def passive_target_info_def send_command_def
      build_frame_def read_frame_def serial_read_def serial_write_def bytes_of_def sum_bytes_def
      py_slice_def ACK_def PREAMBLE_def STARTCODE1_def STARTCODE2_def POSTAMBLE_def
      CMD_IN_LIST_PASSIVE_TARGET_def)

text \<open>
  A response that reports a target but has fewer than six bytes passes the
  guard \<open>len(response) < 2\<close> from two bytes on, and \<open>response[4]\<close> or \<open>response[5]\<close>
  raises \<open>IndexError\<close>.
\<close>

lemma passive_target_info_short:
  assumes "2 \<le> length r" and "length r < 6" and "r ! 0 \<noteq> 0x00"
  shows "passive_target_info (Some r) = Inl IndexError"
proof -
  have "r \<noteq> []"
    using assms(1) by auto
  moreover have "length r \<le> 4 \<or> length r = 5"
    using assms(2) by arith
  ultimately show ?thesis
    using assms
    by (auto simp add: passive_target_info_def py_index_def Let_def uint_0_iff)
qed

text \<open>
  Claim C9 fails on the code. The response \<open>01 01 00 04\<close> (count 1, four bytes)
  arrives in a valid frame after the ACK; \<open>read_passive_target\<close> raises
  \<open>IndexError\<close> instead of returning a result.
\<close>

theorem read_passive_target_short_response_raises:
  "read_passive_target
     \<lparr>rx = [[0x00, 0x00, 0xFF, 0x00, 0xFF, 0x00,
             0x00, 0x00, 0xFF, 0x05, 0xFB, 0xD5, 0x01, 0x01, 0x00, 0x04, 0x25, 0x00]],
      calls = []\<rparr> 0 1
   = (Inl IndexError,
      \<lparr>rx = [[]],
        calls = [Write [0x00, 0x00, 0xFF, 0x04, 0xFC, 0xD4, 0x4A, 0x01, 0x00, 0xE1, 0x00],
                 Read 6, Read 3, Read 2, Read 6, Read 1]\<rparr>)"
  by (simp add: read_passive_target_def passive_target_info_def send_command_def
      build_frame_def read_frame_def serial_read_def serial_write_def bytes_of_def sum_bytes_def
      py_slice_def py_index_def ACK_def PREAMBLE_def STARTCODE1_def STARTCODE2_def POSTAMBLE_def
      CMD_IN_LIST_PASSIVE_TARGET_def)

subsection \<open>Data exchange\<close>

lemma apdu_result_nonzero:
  assumes "r \<noteq> []" and "r ! 0 \<noteq> 0x00"
  shows "apdu_result (Some r) = None"
  using assms by (simp add: apdu_result_def Let_def uint_0_iff)

text \<open>
  Claim C6, as amended. When the response to the data-exchange command has a
  nonzero status byte, \<open>transceive_apdu\<close> returns \<open>None\<close>: no payload, and no
  value that holds the status. The port is left as the one call of
  \<open>send_command\<close> left it, and the request frame was written once.
\<close>

theorem transceive_apdu_nonzero_status:
  assumes "bytes_of [target] = Inr target_b"
    and "send_command t CMD_IN_DATA_EXCHANGE (target_b @ apdu) = (Inr (Some r), t')"
    and "r \<noteq> []" and "r ! 0 \<noteq> 0x00"
  shows "transceive_apdu t target apdu = (Inr None, t')
       \<and> (\<exists>frame. build_frame (CMD_IN_DATA_EXCHANGE @ target_b @ apdu) = Inr frame
             \<and> writes (calls t') = writes (calls t) @ [frame])"
proof -
  have "transceive_apdu t target apdu = (Inr None, t')"
    using assms by (simp add: transceive_apdu_def apdu_result_nonzero)
  with send_command_writes [OF assms(2)] show ?thesis
    by (intro conjI)
qed

text \<open>The status \<open>0x01\<close> in answer to the APDU bytes \<open>00 A4\<close> for target 1.\<close>

theorem transceive_apdu_nonzero_status_witness:
  "bytes_of [1] = Inr [0x01]
   \<and> send_command
         \<lparr>rx = [[0x00, 0x00, 0xFF, 0x00, 0xFF, 0x00,
                 0x00, 0x00, 0xFF, 0x03, 0xFD, 0xD5, 0x01, 0x00, 0x2A, 0x00]], calls = []\<rparr>
         CMD_IN_DATA_EXCHANGE ([0x01] @ [0x00, 0xA4])
       = (Inr (Some [0x01, 0x00]),
          \<lparr>rx = [[]],
            calls = [Write [0x00, 0x00, 0xFF, 0x05, 0xFB, 0xD4, 0x40, 0x01, 0x00, 0xA4, 0x47, 0x00],
                     Read 6, Read 3, Read 2, Read 4, Read 1]\<rparr>)
   \<and> [0x01, 0x00 :: byte] \<noteq> [] \<and> [0x01, 0x00 :: byte] ! 0 \<noteq> 0x00
   \<and> transceive_apdu
         \<lparr>rx = [[0x00, 0x00, 0xFF, 0x00, 0xFF, 0x00,
                 0x00, 0x00, 0xFF, 0x03, 0xFD, 0xD5, 0x01, 0x00, 0x2A, 0x00]], calls = []\<rparr>
         1 [0x00, 0xA4]
       = (Inr None,
          \<lparr>rx = [[]],
            calls = [Write [0x00, 0x00, 0xFF, 0x05, 0xFB, 0xD4, 0x40, 0x01, 0x00, 0xA4, 0x47, 0x00],
                     Read 6, Read 3, Read 2, Read 4, Read 1]\<rparr>)"
proof -
  let ?t = "\<lparr>rx = [[0x00, 0x00, 0xFF, 0x00, 0xFF, 0x00,
                 0x00, 0x00, 0xFF, 0x03, 0xFD, 0xD5, 0x01, 0x00, 0x2A, 0x00 :: byte]],
             calls = []\<rparr>"
  let ?w = "Write [0x00, 0x00, 0xFF, 0x05, 0xFB, 0xD4, 0x40, 0x01, 0x00, 0xA4, 0x47, 0x00]"
  have p: "bytes_of [1] = Inr [0x01]"
    by (simp add: bytes_of_def)
  have s: "send_command ?t CMD_IN_DATA_EXCHANGE ([0x01] @ [0x00, 0xA4])
             = (Inr (Some [0x01, 0x00]),
                \<lparr>rx = [[]], calls = [?w, Read 6, Read 3, Read 2, Read 4, Read 1]\<rparr>)"
    by (simp add: send_command_def build_frame_def read_frame_def serial_read_def
        serial_write_def bytes_of_def sum_bytes_def py_slice_def ACK_def PREAMBLE_def
        STARTCODE1_def STARTCODE2_def POSTAMBLE_def CMD_IN_DATA_EXCHANGE_def)
  have n: "[0x01, 0x00 :: byte] \<noteq> []" and z: "[0x01, 0x00 :: byte] ! 0 \<noteq> 0x00"
    by simp_all
  note c = transceive_apdu_nonzero_status [OF p s n z]
  from p s n z c [THEN conjunct1] show ?thesis
    by (intro conjI)
qed

text \<open>
  Claim C6 as stated fails: the statuses \<open>0x01\<close> and \<open>0x02\<close> and a silent port
  all give the same result, so the result does not carry the status.
\<close>

theorem exchange_status_not_returned_counterexample:
  "fst (transceive_apdu
          \<lparr>rx = [[0x00, 0x00, 0xFF, 0x00, 0xFF, 0x00,
                  0x00, 0x00, 0xFF, 0x03, 0xFD, 0xD5, 0x01, 0x00, 0x2A, 0x00]], calls = []\<rparr>
          1 [0x00, 0xA4]) = Inr None
   \<and> fst (transceive_apdu
          \<lparr>rx = [[0x00, 0x00, 0xFF, 0x00, 0xFF, 0x00,
                  0x00, 0x00, 0xFF, 0x03, 0xFD, 0xD5, 0x02, 0x00, 0x29, 0x00]], calls = []\<rparr>
          1 [0x00, 0xA4]) = Inr None
   \<and> fst (transceive_apdu \<lparr>rx = [], calls = []\<rparr> 1 [0x00, 0xA4]) = Inr None"
  by (simp add: transceive_apdu_def apdu_result_def send_command_def build_frame_def
      read_frame_def serial_read_def serial_write_def bytes_of_def sum_bytes_def py_slice_def
      ACK_def PREAMBLE_def STARTCODE1_def STARTCODE2_def POSTAMBLE_def
      CMD_IN_DATA_EXCHANGE_def)

subsection \<open>Card type\<close>

lemma bit5_mask: "bit (sak::int) 5 \<longleftrightarrow> sak AND 0x20 \<noteq> 0"
  using and_exp_eq_0_iff_not_bit [of sak 5] by simp

lemma hex_digit_inj:
  assumes "d < 16" and "e < 16" and "hex_digit d = hex_digit e"
  shows "d = e"
proof -
  have "distinct ''0123456789ABCDEF''"
    by simp
  moreover have "d < length ''0123456789ABCDEF''" "e < length ''0123456789ABCDEF''"
    using assms by simp_all
  ultimately show ?thesis
    using assms(3) unfolding hex_digit_def by (simp only: nth_eq_iff_index_eq)
qed

lemma hex_digit_0: "hex_digit 0 = CHR ''0''"
  by (simp add: hex_digit_def)

lemma format_02X_byte:
  assumes "0 \<le> v" and "v < 256"
  shows "format_02X v = [hex_digit (nat v div 16), hex_digit (nat v mod 16)]"
proof (cases "nat v < 16")
  case True
  then have "hex_of_nat (nat v) = [hex_digit (nat v)]"
    by (simp add: hex_of_nat.simps)
  with True assms show ?thesis
    by (simp add: format_02X_def hex_digit_0)
next
  case False
  have "nat v div 16 < 16"
    using assms by simp
  then have "hex_of_nat (nat v div 16) = [hex_digit (nat v div 16)]"
    by (simp add: hex_of_nat.simps)
  with False have "hex_of_nat (nat v) = [hex_digit (nat v div 16), hex_digit (nat v mod 16)]"
    by (subst hex_of_nat.simps) simp
  with assms show ?thesis
    by (simp add: format_02X_def)
qed

lemma format_02X_inj:
  assumes "0 \<le> v" "v < 256" "0 \<le> w" "w < 256" and eq: "format_02X v = format_02X w"
  shows "v = w"
proof -
  have lt: "nat v div 16 < 16" "nat w div 16 < 16" "nat v mod 16 < 16" "nat w mod 16 < 16"
    using assms by simp_all
  from eq assms have "hex_digit (nat v div 16) = hex_digit (nat w div 16)"
    and "hex_digit (nat v mod 16) = hex_digit (nat w mod 16)"
    by (simp_all add: format_02X_byte)
  then have "nat v div 16 = nat w div 16" and "nat v mod 16 = nat w mod 16"
    using lt by (auto intro: hex_digit_inj)
  then have "nat v = nat w"
    by (metis div_mult_mod_eq)
  with assms show ?thesis
    by simp
qed

lemma identify_card_type_label: "identify_card_type sak = kind_label (spec_classify_sak sak)"
  by (simp add: identify_card_type_def spec_classify_sak_def bit5_mask)

lemma kind_label_inj:
  assumes "kind_label k = kind_label l"
    and "\<And>v. k = Unknown v \<Longrightarrow> 0 \<le> v \<and> v < 256"
    and "\<And>v. l = Unknown v \<Longrightarrow> 0 \<le> v \<and> v < 256"
  shows "k = l"
  using assms
  by (cases k; cases l) (auto dest: format_02X_inj)

lemma spec_classify_sak_unknown:
  assumes "spec_classify_sak a = Unknown v"
  shows "v = a"
  using assms by (simp add: spec_classify_sak_def split: if_splits)

text \<open>
  Claim C7. \<open>_identify_card_type\<close> computes the specified classification: bit
  \<open>0x20\<close> first, then the exact values \<open>0x08\<close>, \<open>0x18\<close>, \<open>0x00\<close>, \<open>0x10\<close>, else
  unknown with the raw value. Two byte values that the classification tells
  apart get different texts, so the text for an unknown SAK determines the raw
  value. The six values named in the specification are classified as stated.
\<close>

theorem identify_card_type_classifies:
  "identify_card_type sak = kind_label (spec_classify_sak sak)
   \<and> (0 \<le> a \<and> a < 256 \<and> 0 \<le> b \<and> b < 256 \<and> spec_classify_sak a \<noteq> spec_classify_sak b
        \<longrightarrow> identify_card_type a \<noteq> identify_card_type b)
   \<and> identify_card_type 0x08 = ''MIFARE Classic 1K''
   \<and> identify_card_type 0x18 = ''MIFARE Classic 4K''
   \<and> identify_card_type 0x00 = ''MIFARE Ultralight''
   \<and> identify_card_type 0x28 = ''ISO14443-4 (EMV/Smart Card)''
   \<and> identify_card_type 0x10 = ''MIFARE Plus''
   \<and> identify_card_type 0x45 = ''Unknown (SAK: 0x45)''
   \<and> spec_classify_sak 0x45 = Unknown 0x45"
proof -
  have inj: "0 \<le> a \<and> a < 256 \<and> 0 \<le> b \<and> b < 256 \<and> spec_classify_sak a \<noteq> spec_classify_sak b
        \<longrightarrow> identify_card_type a \<noteq> identify_card_type b"
  proof (intro impI notI)
    assume h: "0 \<le> a \<and> a < 256 \<and> 0 \<le> b \<and> b < 256 \<and> spec_classify_sak a \<noteq> spec_classify_sak b"
      and e: "identify_card_type a = identify_card_type b"
    from e have "kind_label (spec_classify_sak a) = kind_label (spec_classify_sak b)"
      by (simp only: identify_card_type_label)
    then have "spec_classify_sak a = spec_classify_sak b"
      using h by (intro kind_label_inj) (auto dest: spec_classify_sak_unknown)
    with h show False
      by simp
  qed
  have v1: "identify_card_type 0x08 = ''MIFARE Classic 1K''"
    and v2: "identify_card_type 0x18 = ''MIFARE Classic 4K''"
    and v3: "identify_card_type 0x00 = ''MIFARE Ultralight''"
    and v4: "identify_card_type 0x28 = ''ISO14443-4 (EMV/Smart Card)''"
    and v5: "identify_card_type 0x10 = ''MIFARE Plus''"
    by (simp_all add: identify_card_type_def)
  have v6: "identify_card_type 0x45 = ''Unknown (SAK: 0x45)''"
    by (simp add: identify_card_type_def format_02X_def hex_of_nat.simps hex_digit_def)
  have v7: "spec_classify_sak 0x45 = Unknown 0x45"
    by (simp add: spec_classify_sak_def)
  from identify_card_type_label [of sak] inj v1 v2 v3 v4 v5 v6 v7 show ?thesis
    by (intro conjI)
qed

theorem identify_card_type_classifies_witness:
  "(0::int) \<le> 0x45 \<and> (0x45::int) < 256 \<and> (0::int) \<le> 0x46 \<and> (0x46::int) < 256
   \<and> spec_classify_sak 0x45 \<noteq> spec_classify_sak 0x46
   \<and> identify_card_type 0x45 \<noteq> identify_card_type 0x46"
proof -
  have h: "(0::int) \<le> 0x45 \<and> (0x45::int) < 256 \<and> (0::int) \<le> 0x46 \<and> (0x46::int) < 256
           \<and> spec_classify_sak 0x45 \<noteq> spec_classify_sak 0x46"
    by (simp add: spec_classify_sak_def)
  note c = identify_card_type_classifies [of 0 "0x45" "0x46"]
  from c [THEN conjunct2, THEN conjunct1] h have "identify_card_type 0x45 \<noteq> identify_card_type 0x46"
    by (rule mp)
  with h show ?thesis
    by simp
qed

end
